theory Spec2Isabelle
  imports Complex_Main "HOL-Library.Multiset"
begin

section \<open>Cards and hands (blackjack\_engine.py)\<close>

text \<open>
  A card carries a rank and a suit. The only place of the repository that builds cards
  is \<open>Deck.reset\<close>, from the fixed list of thirteen rank strings
  \<open>'2', ..., '10', 'J', 'Q', 'K', 'A'\<close> and the four members of the \<open>Suit\<close> enum, so
  the rank strings are modelled as a datatype with thirteen constructors.
\<close>

datatype suit = HEARTS | DIAMONDS | CLUBS | SPADES

datatype rank = R2 | R3 | R4 | R5 | R6 | R7 | R8 | R9 | R10 | RJ | RQ | RK | RA

record card =
  rank :: rank
  suit :: suit

text \<open>\<open>Card.__init__\<close>.\<close>

definition Card :: "rank \<Rightarrow> suit \<Rightarrow> card" where
  "Card r s = \<lparr>rank = r, suit = s\<rparr>"

text \<open>
  \<open>int(self.rank)\<close> on the numeric rank strings. \<open>Card.value\<close> calls it on no
  other rank, so the last equation is never used.
\<close>

fun rank_int :: "rank \<Rightarrow> int" where
  "rank_int R2 = 2"
| "rank_int R3 = 3"
| "rank_int R4 = 4"
| "rank_int R5 = 5"
| "rank_int R6 = 6"
| "rank_int R7 = 7"
| "rank_int R8 = 8"
| "rank_int R9 = 9"
| "rank_int R10 = 10"
| "rank_int r = 0"

text \<open>\<open>Card.value\<close>: J, Q, K are 10, the Ace is 11, any other rank its number.\<close>

definition card_value :: "card \<Rightarrow> int" where
  "card_value c =
     (if rank c \<in> set [RJ, RQ, RK] then 10
      else if rank c = RA then 11
      else rank_int (rank c))"

text \<open>\<open>Card.hi_lo_value\<close>.\<close>

definition hi_lo_value :: "card \<Rightarrow> int" where
  "hi_lo_value c =
     (if rank c \<in> set [R2, R3, R4, R5, R6] then 1
      else if rank c \<in> set [R10, RJ, RQ, RK, RA] then - 1
      else 0)"

text \<open>
  \<open>Hand\<close>: the cards in the order they were added, the bet (a Python float, modelled as
  a real number) and the four flags.
\<close>

record hand =
  cards :: "card list"
  bet :: real
  is_split :: bool
  is_doubled :: bool
  is_surrendered :: bool
  is_insured :: bool

text \<open>\<open>Hand.__init__\<close>.\<close>

definition new_hand :: hand where
  "new_hand = \<lparr>cards = [], bet = 0, is_split = False, is_doubled = False,
               is_surrendered = False, is_insured = False\<rparr>"

text \<open>\<open>Hand.add_card\<close> appends at the end.\<close>

definition add_card :: "hand \<Rightarrow> card \<Rightarrow> hand" where
  "add_card h c = h\<lparr>cards := cards h @ [c]\<rparr>"

text \<open>
  The \<open>for card in self.cards\<close> loop shared by \<open>Hand.value\<close> and \<open>Hand.is_soft\<close>:
  it threads the pair \<open>(total, aces)\<close>, every Ace adding 11 to the total and one to
  the Ace counter.
\<close>

fun sum_cards :: "card list \<Rightarrow> int \<times> int \<Rightarrow> int \<times> int" where
  "sum_cards [] (tot, aces) = (tot, aces)"
| "sum_cards (c # cs) (tot, aces) =
     (if rank c = RA then sum_cards cs (tot + 11, aces + 1)
      else sum_cards cs (tot + card_value c, aces))"

text \<open>The loop \<open>while total > 21 and aces > 0: total -= 10; aces -= 1\<close>.\<close>

function adjust_aces :: "int \<Rightarrow> int \<Rightarrow> int" where
  "adjust_aces tot aces =
     (if tot > 21 \<and> aces > 0 then adjust_aces (tot - 10) (aces - 1) else tot)"
  by pat_completeness auto
termination
  by (relation "measure (\<lambda>(tot, aces). nat aces)") auto

declare adjust_aces.simps [simp del]

text \<open>\<open>Hand.value\<close>.\<close>

definition hand_value :: "hand \<Rightarrow> int" where
  "hand_value h = (case sum_cards (cards h) (0, 0) of (tot, aces) \<Rightarrow> adjust_aces tot aces)"

text \<open>\<open>Hand.is_soft\<close>: the same sum, without the reduction loop.\<close>

definition is_soft :: "hand \<Rightarrow> bool" where
  "is_soft h =
     (case sum_cards (cards h) (0, 0) of (tot, aces) \<Rightarrow>
        if aces > 0 \<and> tot \<le> 21 then True else False)"

text \<open>\<open>Hand.is_blackjack\<close>, \<open>Hand.is_bust\<close>.\<close>

definition is_blackjack :: "hand \<Rightarrow> bool" where
  "is_blackjack h = (length (cards h) = 2 \<and> hand_value h = 21)"

definition is_bust :: "hand \<Rightarrow> bool" where
  "is_bust h = (hand_value h > 21)"

text \<open>\<open>Hand.is_pair\<close>, \<open>Hand.can_split\<close>, \<open>Hand.can_double\<close>.\<close>

definition is_pair :: "hand \<Rightarrow> bool" where
  "is_pair h =
     (if length (cards h) \<noteq> 2 then False
      else rank (cards h ! 0) = rank (cards h ! 1))"

definition can_split :: "hand \<Rightarrow> bool" where
  "can_split h = (is_pair h \<and> \<not> is_split h)"

definition can_double :: "hand \<Rightarrow> bool" where
  "can_double h = (length (cards h) = 2 \<and> \<not> is_doubled h)"

subsection \<open>What a hand can total\<close>

text \<open>
  The totals a list of cards can be counted as, in the words of the specification: each
  Ace counts 1 or 11, every other card its fixed blackjack value.
\<close>

fun ace_totals :: "card list \<Rightarrow> int list" where
  "ace_totals [] = [0]"
| "ace_totals (c # cs) =
     (if rank c = RA then map (\<lambda>t. t + 1) (ace_totals cs) @ map (\<lambda>t. t + 11) (ace_totals cs)
      else map (\<lambda>t. t + card_value c) (ace_totals cs))"

text \<open>The total with every Ace as 1, and the number of Aces.\<close>

fun hard_total :: "card list \<Rightarrow> int" where
  "hard_total [] = 0"
| "hard_total (c # cs) = (if rank c = RA then 1 else card_value c) + hard_total cs"

fun num_aces :: "card list \<Rightarrow> int" where
  "num_aces [] = 0"
| "num_aces (c # cs) = (if rank c = RA then 1 else 0) + num_aces cs"

section \<open>The shoe (blackjack\_engine.py, class Deck)\<close>

text \<open>
  The exceptions of the engine as values: \<open>Exception("Deck is empty!")\<close> of
  \<open>deal_card\<close>, the \<open>ValueError\<close> of an illegal action, the \<open>IndexError\<close> of a list
  read out of range and the \<open>ZeroDivisionError\<close> of a division.
\<close>

datatype error = DeckEmpty | ValueError | IndexError | ZeroDivisionError

text \<open>
  \<open>Deck\<close>: the live cards (dealt from the end of the list, as \<open>list.pop()\<close> does), the
  discards and the cut-card position.
\<close>

record deck =
  num_decks :: int
  deck_cards :: "card list"
  discards :: "card list"
  cut_card_position :: int

definition ranks :: "rank list" where
  "ranks = [R2, R3, R4, R5, R6, R7, R8, R9, R10, RJ, RQ, RK, RA]"

definition suits :: "suit list" where
  "suits = [HEARTS, DIAMONDS, CLUBS, SPADES]"

text \<open>
  The three nested loops of \<open>Deck.reset\<close>: \<open>range(self.num_decks)\<close> is empty for a
  count below one.
\<close>

definition fresh_cards :: "int \<Rightarrow> card list" where
  "fresh_cards n = concat (replicate (nat n) (concat (map (\<lambda>r. map (\<lambda>s. Card r s) suits) ranks)))"

text \<open>
  \<open>Deck.reset\<close>. \<open>random.shuffle\<close> is the parameter \<open>shuffle\<close>, of which the theorems
  assume only that it permutes its argument. \<open>int(len(self.cards) * 0.25)\<close> truncates a
  product that is never negative.
\<close>

definition permutes_cards :: "(card list \<Rightarrow> card list) \<Rightarrow> bool" where
  "permutes_cards shuffle = (\<forall>cs. mset (shuffle cs) = mset cs)"

definition reset :: "(card list \<Rightarrow> card list) \<Rightarrow> deck \<Rightarrow> deck" where
  "reset shuffle d =
     (let cs = shuffle (fresh_cards (num_decks d))
      in d\<lparr>deck_cards := cs,
           cut_card_position := \<lfloor>real (length cs) * 0.25\<rfloor>,
           discards := []\<rparr>)"

text \<open>\<open>Deck.__init__\<close>.\<close>

definition Deck :: "(card list \<Rightarrow> card list) \<Rightarrow> int \<Rightarrow> deck" where
  "Deck shuffle n =
     reset shuffle \<lparr>num_decks = n, deck_cards = [], discards = [], cut_card_position = 0\<rparr>"

text \<open>\<open>Deck.deal_card\<close>: raises on an empty shoe, before anything is changed.\<close>

definition deal_card :: "deck \<Rightarrow> error + card \<times> deck" where
  "deal_card d =
     (if length (deck_cards d) = 0 then Inl DeckEmpty
      else let c = last (deck_cards d)
           in Inr (c, d\<lparr>deck_cards := butlast (deck_cards d), discards := discards d @ [c]\<rparr>))"

definition cards_remaining :: "deck \<Rightarrow> int" where
  "cards_remaining d = int (length (deck_cards d))"

definition decks_remaining :: "deck \<Rightarrow> real" where
  "decks_remaining d = real (length (deck_cards d)) / 52"

definition needs_shuffle :: "deck \<Rightarrow> bool" where
  "needs_shuffle d = (int (length (deck_cards d)) \<le> cut_card_position d)"

text \<open>The shoes that successful \<open>deal_card\<close> calls lead to; a failed call changes nothing.\<close>

inductive deals_to :: "deck \<Rightarrow> deck \<Rightarrow> bool" where
  deals_refl: "deals_to d d"
| deals_step: "deals_to d d' \<Longrightarrow> deal_card d' = Inr (c, d'') \<Longrightarrow> deals_to d d''"

section \<open>The round (blackjack\_engine.py, classes GameRules and BlackjackGame)\<close>

record game_rules =
  rules_num_decks :: int
  dealer_hits_soft_17 :: bool
  blackjack_payout :: real
  can_surrender :: bool
  can_double_after_split :: bool
  can_resplit_aces :: bool
  max_splits :: int
  min_bet :: real
  max_bet :: real
  penetration :: real

text \<open>The defaults of the \<open>GameRules\<close> dataclass.\<close>

definition GameRules :: game_rules where
  "GameRules = \<lparr>rules_num_decks = 6, dealer_hits_soft_17 = False, blackjack_payout = 1.5,
                can_surrender = True, can_double_after_split = True, can_resplit_aces = False,
                max_splits = 3, min_bet = 10, max_bet = 500, penetration = 0.75\<rparr>"

text \<open>
  \<open>BlackjackGame\<close>. The cursor \<open>current_hand_index\<close> starts at 0 and is only ever
  incremented, so it is a natural number.
\<close>

record game =
  rules :: game_rules
  deck :: deck
  player_hands :: "hand list"
  dealer_hand :: hand
  current_hand_index :: nat

text \<open>\<open>BlackjackGame.__init__\<close>: of the rules, the shoe gets the number of decks only.\<close>

definition BlackjackGame :: "(card list \<Rightarrow> card list) \<Rightarrow> game_rules \<Rightarrow> game" where
  "BlackjackGame shuffle r =
     \<lparr>rules = r, deck = Deck shuffle (rules_num_decks r), player_hands = [],
      dealer_hand = new_hand, current_hand_index = 0\<rparr>"

definition new_round :: "(card list \<Rightarrow> card list) \<Rightarrow> game \<Rightarrow> game" where
  "new_round shuffle g =
     (let g1 = (if needs_shuffle (deck g) then g\<lparr>deck := reset shuffle (deck g)\<rparr> else g)
      in g1\<lparr>player_hands := [new_hand], dealer_hand := new_hand, current_hand_index := 0\<rparr>)"

text \<open>\<open>get_current_hand\<close>: \<open>self.player_hands[self.current_hand_index]\<close>.\<close>

definition get_current_hand :: "game \<Rightarrow> error + hand" where
  "get_current_hand g =
     (if current_hand_index g < length (player_hands g)
      then Inr (player_hands g ! current_hand_index g) else Inl IndexError)"

text \<open>
  The hand objects sit in \<open>player_hands\<close>; a method that changes the current hand
  changes the list element at the cursor.
\<close>

definition set_current_hand :: "game \<Rightarrow> hand \<Rightarrow> game" where
  "set_current_hand g h = g\<lparr>player_hands := (player_hands g)[current_hand_index g := h]\<rparr>"

text \<open>\<open>BlackjackGame.hit\<close>.\<close>

definition hit :: "game \<Rightarrow> error + card \<times> game" where
  "hit g =
     (case get_current_hand g of Inl e \<Rightarrow> Inl e
      | Inr h \<Rightarrow>
         (case deal_card (deck g) of Inl e \<Rightarrow> Inl e
          | Inr (c, d) \<Rightarrow> Inr (c, set_current_hand (g\<lparr>deck := d\<rparr>) (add_card h c))))"

text \<open>\<open>BlackjackGame.stand\<close>.\<close>

definition stand :: "game \<Rightarrow> game" where
  "stand g = g\<lparr>current_hand_index := current_hand_index g + 1\<rparr>"

text \<open>\<open>BlackjackGame.double_down\<close>.\<close>

definition double_down :: "game \<Rightarrow> error + card \<times> game" where
  "double_down g =
     (case get_current_hand g of Inl e \<Rightarrow> Inl e
      | Inr h \<Rightarrow>
         if \<not> can_double h then Inl ValueError
         else let h1 = h\<lparr>bet := bet h * 2, is_doubled := True\<rparr>
              in (case deal_card (deck g) of Inl e \<Rightarrow> Inl e
                  | Inr (c, d) \<Rightarrow>
                     let g1 = set_current_hand (g\<lparr>deck := d\<rparr>) (add_card h1 c)
                     in Inr (c, g1\<lparr>current_hand_index := current_hand_index g1 + 1\<rparr>)))"

text \<open>
  \<open>BlackjackGame.split\<close>: \<open>hand.cards.pop()\<close> moves the last card of the current hand
  to the new hand, the current hand is dealt a card first, then the new one, and
  \<open>list.insert\<close> puts the new hand behind the cursor.
\<close>

definition split :: "game \<Rightarrow> error + (hand \<times> hand) \<times> game" where
  "split g =
     (case get_current_hand g of Inl e \<Rightarrow> Inl e
      | Inr h \<Rightarrow>
         if \<not> can_split h then Inl ValueError
         else if int (length (player_hands g)) \<ge> max_splits (rules g) + 1 then Inl ValueError
         else let n0 = (add_card new_hand (last (cards h)))\<lparr>bet := bet h, is_split := True\<rparr>;
                  h0 = h\<lparr>cards := butlast (cards h), is_split := True\<rparr>
              in (case deal_card (deck g) of Inl e \<Rightarrow> Inl e
                  | Inr (c1, d1) \<Rightarrow>
                     (case deal_card d1 of Inl e \<Rightarrow> Inl e
                      | Inr (c2, d2) \<Rightarrow>
                         let h1 = add_card h0 c1;
                             n1 = add_card n0 c2;
                             i = current_hand_index g;
                             hs = (player_hands g)[i := h1]
                         in Inr ((h1, n1),
                                 g\<lparr>deck := d2,
                                   player_hands := take (i + 1) hs @ [n1] @ drop (i + 1) hs\<rparr>))))"

text \<open>\<open>BlackjackGame.surrender\<close>.\<close>

definition surrender :: "game \<Rightarrow> error + game" where
  "surrender g =
     (case get_current_hand g of Inl e \<Rightarrow> Inl e
      | Inr h \<Rightarrow>
         if length (cards h) \<noteq> 2 then Inl ValueError
         else let g1 = set_current_hand g (h\<lparr>is_surrendered := True\<rparr>)
              in Inr (g1\<lparr>current_hand_index := current_hand_index g1 + 1\<rparr>))"

text \<open>
  \<open>BlackjackGame.play_dealer_hand\<close>: the \<open>while True\<close> loop, one recursive call for
  each card the dealer draws. An empty shoe ends it with the exception of \<open>deal_card\<close>.
\<close>

function play_dealer_hand :: "game \<Rightarrow> error + game" where
  "play_dealer_hand g =
     (let v = hand_value (dealer_hand g)
      in if v > 21 then Inr g
         else if v > 17 then Inr g
         else if v = 17 then
           (if dealer_hits_soft_17 (rules g) \<and> is_soft (dealer_hand g) then
              (case deal_card (deck g) of Inl e \<Rightarrow> Inl e
               | Inr (c, d) \<Rightarrow>
                  play_dealer_hand (g\<lparr>dealer_hand := add_card (dealer_hand g) c, deck := d\<rparr>))
            else Inr g)
         else
           (case deal_card (deck g) of Inl e \<Rightarrow> Inl e
            | Inr (c, d) \<Rightarrow>
               play_dealer_hand (g\<lparr>dealer_hand := add_card (dealer_hand g) c, deck := d\<rparr>)))"
  by pat_completeness auto
termination
  by (relation "measure (\<lambda>g. length (deck_cards (deck g)))")
     (auto simp: deal_card_def Let_def split: if_splits)

declare play_dealer_hand.simps [simp del]

text \<open>\<open>BlackjackGame.resolve_hand\<close>; the amounts are real numbers.\<close>

definition resolve_hand :: "game \<Rightarrow> hand \<Rightarrow> real" where
  "resolve_hand g h =
     (if is_surrendered h then - bet h * 0.5
      else let player_value = hand_value h;
               dealer_value = hand_value (dealer_hand g)
           in if player_value > 21 then - bet h
              else if is_blackjack h then
                (if is_blackjack (dealer_hand g) then 0
                 else bet h * blackjack_payout (rules g))
              else if dealer_value > 21 then bet h
              else if is_blackjack (dealer_hand g) then
                (if is_insured h then
                   (let insurance_profit = bet h * 0.5 in - bet h + insurance_profit)
                 else - bet h)
              else if player_value > dealer_value then bet h
              else if player_value < dealer_value then - bet h
              else 0)"

definition is_round_complete :: "game \<Rightarrow> bool" where
  "is_round_complete g = (current_hand_index g \<ge> length (player_hands g))"

section \<open>The player's turn (training\_modes.py, FullGameSimulator.play\_round)\<close>

text \<open>
  One pass of the loop \<open>while not self.game.is_round_complete()\<close>, on the game alone
  (counting, printing and the strategy hint do not touch it). The answer typed by the
  player is the string \<open>action_input\<close>. A hand that is already bust is stood; a hit
  that busts the hand is followed by \<open>stand\<close>; the \<open>ValueError\<close> of an illegal double,
  split or surrender is caught and leaves the game as it was, while the exception of an
  empty shoe is not caught.
\<close>

definition player_turn :: "string \<Rightarrow> game \<Rightarrow> error + game" where
  "player_turn action_input g =
     (case get_current_hand g of Inl e \<Rightarrow> Inl e
      | Inr h \<Rightarrow>
         if is_bust h then Inr (stand g)
         else if action_input = ''H'' then
           (case hit g of Inl e \<Rightarrow> Inl e
            | Inr (c, g1) \<Rightarrow>
               (case get_current_hand g1 of Inl e \<Rightarrow> Inl e
                | Inr h1 \<Rightarrow> if is_bust h1 then Inr (stand g1) else Inr g1))
         else if action_input = ''S'' then Inr (stand g)
         else if action_input = ''D'' then
           (case double_down g of Inl ValueError \<Rightarrow> Inr g | Inl e \<Rightarrow> Inl e
            | Inr (c, g1) \<Rightarrow> Inr g1)
         else if action_input = ''SP'' then
           (case split g of Inl ValueError \<Rightarrow> Inr g | Inl e \<Rightarrow> Inl e
            | Inr (hs, g1) \<Rightarrow> Inr g1)
         else if action_input = ''SR'' then
           (case surrender g of Inl ValueError \<Rightarrow> Inr g | Inl e \<Rightarrow> Inl e
            | Inr g1 \<Rightarrow> Inr g1)
         else Inr g)"

section \<open>Basic strategy (basic\_strategy.py)\<close>

datatype action = HIT | STAND | DOUBLE | SPLIT | SURRENDER | DOUBLE_OR_HIT | DOUBLE_OR_STAND
  | SPLIT_IF_DAS

text \<open>The three flags a \<open>BasicStrategy\<close> object is built with.\<close>

record basic_strategy =
  bs_dealer_hits_soft_17 :: bool
  bs_can_surrender :: bool
  double_after_split :: bool

text \<open>\<open>BasicStrategy()\<close> with the default arguments.\<close>

definition BasicStrategy :: basic_strategy where
  "BasicStrategy = \<lparr>bs_dealer_hits_soft_17 = False, bs_can_surrender = True,
                    double_after_split = True\<rparr>"

text \<open>
  The tables, as the dictionaries of the source: a list of (player total or rank,
  row), a row a list of (dealer upcard value, action).
\<close>

definition hard_strategy :: "basic_strategy \<Rightarrow> (int \<times> (int \<times> action) list) list" where
  "hard_strategy s =
     [(5, [(2, HIT), (3, HIT), (4, HIT), (5, HIT), (6, HIT), (7, HIT), (8, HIT), (9, HIT),
            (10, HIT), (11, HIT)]),
      (6, [(2, HIT), (3, HIT), (4, HIT), (5, HIT), (6, HIT), (7, HIT), (8, HIT), (9, HIT),
            (10, HIT), (11, HIT)]),
      (7, [(2, HIT), (3, HIT), (4, HIT), (5, HIT), (6, HIT), (7, HIT), (8, HIT), (9, HIT),
            (10, HIT), (11, HIT)]),
      (8, [(2, HIT), (3, HIT), (4, HIT), (5, HIT), (6, HIT), (7, HIT), (8, HIT), (9, HIT),
            (10, HIT), (11, HIT)]),
      (9, [(2, HIT), (3, DOUBLE_OR_HIT), (4, DOUBLE_OR_HIT), (5, DOUBLE_OR_HIT),
            (6, DOUBLE_OR_HIT), (7, HIT), (8, HIT), (9, HIT), (10, HIT), (11, HIT)]),
      (10, [(2, DOUBLE_OR_HIT), (3, DOUBLE_OR_HIT), (4, DOUBLE_OR_HIT), (5, DOUBLE_OR_HIT),
            (6, DOUBLE_OR_HIT), (7, DOUBLE_OR_HIT), (8, DOUBLE_OR_HIT), (9, DOUBLE_OR_HIT),
            (10, HIT), (11, HIT)]),
      (11, [(2, DOUBLE_OR_HIT), (3, DOUBLE_OR_HIT), (4, DOUBLE_OR_HIT), (5, DOUBLE_OR_HIT),
            (6, DOUBLE_OR_HIT), (7, DOUBLE_OR_HIT), (8, DOUBLE_OR_HIT), (9, DOUBLE_OR_HIT),
            (10, DOUBLE_OR_HIT),
            (11, if bs_dealer_hits_soft_17 s then DOUBLE_OR_HIT else HIT)]),
      (12, [(2, HIT), (3, HIT), (4, STAND), (5, STAND), (6, STAND), (7, HIT), (8, HIT),
            (9, HIT), (10, HIT), (11, HIT)]),
      (13, [(2, STAND), (3, STAND), (4, STAND), (5, STAND), (6, STAND), (7, HIT), (8, HIT),
            (9, HIT), (10, HIT), (11, HIT)]),
      (14, [(2, STAND), (3, STAND), (4, STAND), (5, STAND), (6, STAND), (7, HIT), (8, HIT),
            (9, HIT), (10, HIT), (11, HIT)]),
      (15, [(2, STAND), (3, STAND), (4, STAND), (5, STAND), (6, STAND), (7, HIT), (8, HIT),
            (9, HIT), (10, HIT), (11, HIT)]),
      (16, [(2, STAND), (3, STAND), (4, STAND), (5, STAND), (6, STAND), (7, HIT), (8, HIT),
            (9, HIT), (10, HIT), (11, HIT)]),
      (17, [(2, STAND), (3, STAND), (4, STAND), (5, STAND), (6, STAND), (7, STAND),
            (8, STAND), (9, STAND), (10, STAND), (11, STAND)]),
      (18, [(2, STAND), (3, STAND), (4, STAND), (5, STAND), (6, STAND), (7, STAND),
            (8, STAND), (9, STAND), (10, STAND), (11, STAND)]),
      (19, [(2, STAND), (3, STAND), (4, STAND), (5, STAND), (6, STAND), (7, STAND),
            (8, STAND), (9, STAND), (10, STAND), (11, STAND)]),
      (20, [(2, STAND), (3, STAND), (4, STAND), (5, STAND), (6, STAND), (7, STAND),
            (8, STAND), (9, STAND), (10, STAND), (11, STAND)]),
      (21, [(2, STAND), (3, STAND), (4, STAND), (5, STAND), (6, STAND), (7, STAND),
            (8, STAND), (9, STAND), (10, STAND), (11, STAND)])]"

definition soft_strategy :: "basic_strategy \<Rightarrow> (int \<times> (int \<times> action) list) list" where
  "soft_strategy s =
     [(13, [(2, HIT), (3, HIT), (4, HIT), (5, DOUBLE_OR_HIT), (6, DOUBLE_OR_HIT), (7, HIT),
            (8, HIT), (9, HIT), (10, HIT), (11, HIT)]),
      (14, [(2, HIT), (3, HIT), (4, HIT), (5, DOUBLE_OR_HIT), (6, DOUBLE_OR_HIT), (7, HIT),
            (8, HIT), (9, HIT), (10, HIT), (11, HIT)]),
      (15, [(2, HIT), (3, HIT), (4, DOUBLE_OR_HIT), (5, DOUBLE_OR_HIT), (6, DOUBLE_OR_HIT),
            (7, HIT), (8, HIT), (9, HIT), (10, HIT), (11, HIT)]),
      (16, [(2, HIT), (3, HIT), (4, DOUBLE_OR_HIT), (5, DOUBLE_OR_HIT), (6, DOUBLE_OR_HIT),
            (7, HIT), (8, HIT), (9, HIT), (10, HIT), (11, HIT)]),
      (17, [(2, HIT), (3, DOUBLE_OR_HIT), (4, DOUBLE_OR_HIT), (5, DOUBLE_OR_HIT),
            (6, DOUBLE_OR_HIT), (7, HIT), (8, HIT), (9, HIT), (10, HIT), (11, HIT)]),
      (18, [(2, if \<not> bs_dealer_hits_soft_17 s then STAND else DOUBLE_OR_STAND),
            (3, DOUBLE_OR_STAND), (4, DOUBLE_OR_STAND), (5, DOUBLE_OR_STAND),
            (6, DOUBLE_OR_STAND), (7, STAND), (8, STAND), (9, HIT), (10, HIT),
            (11, if \<not> bs_dealer_hits_soft_17 s then HIT else HIT)]),
      (19, [(2, STAND), (3, STAND), (4, STAND), (5, STAND), (6, STAND), (7, STAND),
            (8, STAND), (9, STAND), (10, STAND), (11, STAND)]),
      (20, [(2, STAND), (3, STAND), (4, STAND), (5, STAND), (6, STAND), (7, STAND),
            (8, STAND), (9, STAND), (10, STAND), (11, STAND)]),
      (21, [(2, STAND), (3, STAND), (4, STAND), (5, STAND), (6, STAND), (7, STAND),
            (8, STAND), (9, STAND), (10, STAND), (11, STAND)])]"

definition pair_strategy :: "basic_strategy \<Rightarrow> (rank \<times> (int \<times> action) list) list" where
  "pair_strategy s =
     [(R2, [(2, if double_after_split s then SPLIT else HIT),
            (3, if double_after_split s then SPLIT else HIT), (4, SPLIT), (5, SPLIT),
            (6, SPLIT), (7, SPLIT), (8, HIT), (9, HIT), (10, HIT), (11, HIT)]),
      (R3, [(2, if double_after_split s then SPLIT else HIT),
            (3, if double_after_split s then SPLIT else HIT), (4, SPLIT), (5, SPLIT),
            (6, SPLIT), (7, SPLIT), (8, HIT), (9, HIT), (10, HIT), (11, HIT)]),
      (R4, [(2, HIT), (3, HIT), (4, HIT), (5, if double_after_split s then SPLIT else HIT),
            (6, if double_after_split s then SPLIT else HIT), (7, HIT), (8, HIT), (9, HIT),
            (10, HIT), (11, HIT)]),
      (R5, [(2, DOUBLE_OR_HIT), (3, DOUBLE_OR_HIT), (4, DOUBLE_OR_HIT), (5, DOUBLE_OR_HIT),
            (6, DOUBLE_OR_HIT), (7, DOUBLE_OR_HIT), (8, DOUBLE_OR_HIT), (9, DOUBLE_OR_HIT),
            (10, HIT), (11, HIT)]),
      (R6, [(2, if double_after_split s then SPLIT else HIT), (3, SPLIT), (4, SPLIT),
            (5, SPLIT), (6, SPLIT), (7, HIT), (8, HIT), (9, HIT), (10, HIT), (11, HIT)]),
      (R7, [(2, SPLIT), (3, SPLIT), (4, SPLIT), (5, SPLIT), (6, SPLIT), (7, SPLIT),
            (8, HIT), (9, HIT), (10, HIT), (11, HIT)]),
      (R8, [(2, SPLIT), (3, SPLIT), (4, SPLIT), (5, SPLIT), (6, SPLIT), (7, SPLIT),
            (8, SPLIT), (9, SPLIT), (10, SPLIT), (11, SPLIT)]),
      (R9, [(2, SPLIT), (3, SPLIT), (4, SPLIT), (5, SPLIT), (6, SPLIT), (7, STAND),
            (8, SPLIT), (9, SPLIT), (10, STAND), (11, STAND)]),
      (R10, [(2, STAND), (3, STAND), (4, STAND), (5, STAND), (6, STAND), (7, STAND),
            (8, STAND), (9, STAND), (10, STAND), (11, STAND)]),
      (RJ, [(2, STAND), (3, STAND), (4, STAND), (5, STAND), (6, STAND), (7, STAND),
            (8, STAND), (9, STAND), (10, STAND), (11, STAND)]),
      (RQ, [(2, STAND), (3, STAND), (4, STAND), (5, STAND), (6, STAND), (7, STAND),
            (8, STAND), (9, STAND), (10, STAND), (11, STAND)]),
      (RK, [(2, STAND), (3, STAND), (4, STAND), (5, STAND), (6, STAND), (7, STAND),
            (8, STAND), (9, STAND), (10, STAND), (11, STAND)]),
      (RA, [(2, SPLIT), (3, SPLIT), (4, SPLIT), (5, SPLIT), (6, SPLIT), (7, SPLIT),
            (8, SPLIT), (9, SPLIT), (10, SPLIT), (11, SPLIT)])]"

text \<open>\<open>_init_surrender\<close>: player total to the upcard values to surrender against.\<close>

definition surrender_strategy :: "basic_strategy \<Rightarrow> (int \<times> int list) list" where
  "surrender_strategy s =
     [(15, if bs_can_surrender s then [10] else []),
      (16, if bs_can_surrender s then [9, 10, 11] else []),
      (17, if bs_can_surrender s \<and> bs_dealer_hits_soft_17 s then [11] else [])]"

text \<open>\<open>table.get(key, {}).get(dealer_value, default)\<close>.\<close>

definition lookup_action :: "('k \<times> (int \<times> action) list) list \<Rightarrow> 'k \<Rightarrow> int \<Rightarrow> action \<Rightarrow> action" where
  "lookup_action table key dealer_value dflt =
     (case map_of (case map_of table key of None \<Rightarrow> [] | Some row \<Rightarrow> row) dealer_value of
        None \<Rightarrow> dflt | Some a \<Rightarrow> a)"

text \<open>\<open>BasicStrategy.get_action\<close>.\<close>

definition get_action :: "basic_strategy \<Rightarrow> hand \<Rightarrow> card \<Rightarrow> bool \<Rightarrow> bool \<Rightarrow> bool \<Rightarrow> action" where
  "get_action s h dealer_upcard can_dbl can_spl can_surr =
     (let dealer_value = card_value dealer_upcard;
          player_value = hand_value h
      in if can_surr \<and> length (cards h) = 2 \<and> \<not> is_soft h \<and>
            (case map_of (surrender_strategy s) player_value of
               None \<Rightarrow> False | Some ups \<Rightarrow> dealer_value \<in> set ups)
         then SURRENDER
         else if can_spl \<and> is_pair h \<and>
                 lookup_action (pair_strategy s) (rank (cards h ! 0)) dealer_value HIT = SPLIT
         then SPLIT
         else let a = (if is_soft h \<and> player_value \<le> 21
                       then lookup_action (soft_strategy s) player_value dealer_value STAND
                       else lookup_action (hard_strategy s) player_value dealer_value STAND)
              in if a = DOUBLE_OR_HIT then (if can_dbl then DOUBLE else HIT)
                 else if a = DOUBLE_OR_STAND then (if can_dbl then DOUBLE else STAND)
                 else a)"

section \<open>Counting (counting\_system.py, class HiLoCounter)\<close>

record hilo_counter =
  running_count :: int
  cards_seen :: int
  starting_decks :: int

text \<open>Python's \<open>/\<close>: a zero divisor raises.\<close>

definition py_truediv :: "real \<Rightarrow> real \<Rightarrow> error + real" where
  "py_truediv x y = (if y = 0 then Inl ZeroDivisionError else Inr (x / y))"

text \<open>\<open>HiLoCounter.get_true_count\<close>; the float \<open>decks_remaining\<close> is a real number.\<close>

definition get_true_count :: "hilo_counter \<Rightarrow> real \<Rightarrow> error + real" where
  "get_true_count k decks_rem =
     (if decks_rem \<le> 0 then Inr 0
      else py_truediv (real_of_int (running_count k)) decks_rem)"

section \<open>Example rounds\<close>

text \<open>A round in which the player holds a pair of Aces and the shoe has three cards left.\<close>

definition example_split_game :: game where
  "example_split_game =
     \<lparr>rules = GameRules,
      deck = \<lparr>num_decks = 1, deck_cards = [Card R5 CLUBS, Card RQ DIAMONDS, Card RK CLUBS],
               discards = [], cut_card_position = 0\<rparr>,
      player_hands = [new_hand\<lparr>cards := [Card RA HEARTS, Card RA SPADES], bet := 100\<rparr>],
      dealer_hand = new_hand\<lparr>cards := [Card R10 HEARTS, Card R8 SPADES]\<rparr>,
      current_hand_index = 0\<rparr>"

text \<open>A round in which the player holds a hard 19 and the next card of the shoe is a Queen.\<close>

definition example_bust_game :: game where
  "example_bust_game =
     \<lparr>rules = GameRules,
      deck = \<lparr>num_decks = 1, deck_cards = [Card R5 CLUBS, Card R3 HEARTS, Card RQ DIAMONDS],
               discards = [], cut_card_position = 0\<rparr>,
      player_hands = [new_hand\<lparr>cards := [Card RK SPADES, Card R9 HEARTS], bet := 50\<rparr>],
      dealer_hand = new_hand\<lparr>cards := [Card R10 HEARTS, Card R8 SPADES]\<rparr>,
      current_hand_index = 0\<rparr>"

text \<open>
  A round under H17 at the dealer's turn: the dealer holds a pair of Aces and the next
  card of the shoe is a 5.
\<close>

definition example_h17_game :: game where
  "example_h17_game =
     \<lparr>rules = GameRules\<lparr>dealer_hits_soft_17 := True\<rparr>,
      deck = \<lparr>num_decks = 1, deck_cards = [Card R7 DIAMONDS, Card R4 HEARTS, Card R5 CLUBS],
               discards = [], cut_card_position = 0\<rparr>,
      player_hands = [new_hand\<lparr>cards := [Card RK SPADES, Card R9 HEARTS], bet := 50\<rparr>],
      dealer_hand = new_hand\<lparr>cards := [Card RA HEARTS, Card RA SPADES]\<rparr>,
      current_hand_index = 1\<rparr>"

section \<open>Hand value\<close>

lemma num_aces_nonneg: "0 \<le> num_aces cs"
  by (induction cs) auto

lemma sum_cards_eq:
  "sum_cards cs (tot, aces) = (tot + hard_total cs + 10 * num_aces cs, aces + num_aces cs)"
  by (induction cs arbitrary: tot aces) auto

lemma ace_totals_set:
  "set (ace_totals cs) = {hard_total cs + 10 * k | k. 0 \<le> k \<and> k \<le> num_aces cs}"
proof (induction cs)
  case Nil
  then show ?case by auto
next
  case (Cons c cs)
  show ?case
  proof (cases "rank c = RA")
    case False
    then show ?thesis using Cons by (auto simp: image_iff)
  next
    case True
    have "set (ace_totals (c # cs)) =
        (\<lambda>t. t + 1) ` set (ace_totals cs) \<union> (\<lambda>t. t + 11) ` set (ace_totals cs)"
      using True by simp
    also have "\<dots> = {1 + hard_total cs + 10 * k | k. 0 \<le> k \<and> k \<le> num_aces cs + 1}"
    proof (rule set_eqI, rule iffI)
      fix x
      assume "x \<in> (\<lambda>t. t + 1) ` set (ace_totals cs) \<union> (\<lambda>t. t + 11) ` set (ace_totals cs)"
      then consider k where "0 \<le> k" "k \<le> num_aces cs" "x = hard_total cs + 10 * k + 1"
        | k where "0 \<le> k" "k \<le> num_aces cs" "x = hard_total cs + 10 * k + 11"
        unfolding Cons.IH by auto
      then show "x \<in> {1 + hard_total cs + 10 * k | k. 0 \<le> k \<and> k \<le> num_aces cs + 1}"
      proof cases
        case 1
        then show ?thesis by (intro CollectI exI [of _ k]) auto
      next
        case 2
        then show ?thesis by (intro CollectI exI [of _ "k + 1"]) auto
      qed
    next
      fix x
      assume "x \<in> {1 + hard_total cs + 10 * k | k. 0 \<le> k \<and> k \<le> num_aces cs + 1}"
      then obtain k where k: "0 \<le> k" "k \<le> num_aces cs + 1" "x = 1 + hard_total cs + 10 * k"
        by auto
      show "x \<in> (\<lambda>t. t + 1) ` set (ace_totals cs) \<union> (\<lambda>t. t + 11) ` set (ace_totals cs)"
      proof (cases "k = 0")
        case True
        have "hard_total cs + 10 * 0 \<in> set (ace_totals cs)"
          unfolding Cons.IH using num_aces_nonneg [of cs] by blast
        then show ?thesis using k True by (auto simp: image_iff)
      next
        case False
        have "hard_total cs + 10 * (k - 1) \<in> set (ace_totals cs)"
          unfolding Cons.IH using k False by (intro CollectI exI [of _ "k - 1"]) auto
        then have "hard_total cs + 10 * (k - 1) + 11 \<in> (\<lambda>t. t + 11) ` set (ace_totals cs)"
          by (rule imageI)
        then show ?thesis using k by (simp add: algebra_simps)
      qed
    qed
    finally show ?thesis using True by (simp add: add.commute)
  qed
qed

text \<open>
  The reduction loop takes off 10 for \<open>j\<close> of the \<open>aces\<close> Aces; it stops at the first
  total that fits 21, or when no Ace is left.
\<close>

lemma adjust_aces_spec:
  "0 \<le> aces \<Longrightarrow>
   \<exists>j. 0 \<le> j \<and> j \<le> aces \<and> adjust_aces tot aces = tot - 10 * j \<and>
       (tot - 10 * j \<le> 21 \<or> j = aces) \<and> (\<forall>i. 0 \<le> i \<and> i < j \<longrightarrow> tot - 10 * i > 21)"
proof (induction tot aces rule: adjust_aces.induct)
  case (1 tot aces)
  show ?case
  proof (cases "tot > 21 \<and> aces > 0")
    case False
    then have "adjust_aces tot aces = tot"
      by (simp add: adjust_aces.simps)
    then show ?thesis using False "1.prems" by (intro exI [of _ 0]) auto
  next
    case True
    then have step: "adjust_aces tot aces = adjust_aces (tot - 10) (aces - 1)"
      by (simp add: adjust_aces.simps)
    from "1.IH" [OF True] True obtain j where j: "0 \<le> j" "j \<le> aces - 1"
      "adjust_aces (tot - 10) (aces - 1) = tot - 10 - 10 * j"
      "tot - 10 - 10 * j \<le> 21 \<or> j = aces - 1"
      "\<forall>i. 0 \<le> i \<and> i < j \<longrightarrow> tot - 10 - 10 * i > 21"
      by auto
    have "\<forall>i. 0 \<le> i \<and> i < j + 1 \<longrightarrow> tot - 10 * i > 21"
    proof (intro allI impI)
      fix i assume i: "0 \<le> i \<and> i < j + 1"
      show "tot - 10 * i > 21"
      proof (cases "i = 0")
        case True
        then show ?thesis using \<open>tot > 21 \<and> aces > 0\<close> by simp
      next
        case False
        then have "0 \<le> i - 1 \<and> i - 1 < j" using i by auto
        with j(5) have "tot - 10 - 10 * (i - 1) > 21" by blast
        then show ?thesis by simp
      qed
    qed
    then show ?thesis using j step by (intro exI [of _ "j + 1"]) auto
  qed
qed

text \<open>
  Claim C1. For every hand, \<open>Hand.value\<close> is one of the totals the cards can be counted
  as (each Ace 1 or 11); when some such total is at most 21 it is the greatest of them,
  and when none is it is the least total of all.
\<close>

theorem hand_value_best_total:
  "hand_value h \<in> set (ace_totals (cards h)) \<and>
   (if \<exists>t\<in>set (ace_totals (cards h)). t \<le> 21
    then hand_value h \<le> 21 \<and> (\<forall>t\<in>set (ace_totals (cards h)). t \<le> 21 \<longrightarrow> t \<le> hand_value h)
    else (\<forall>t\<in>set (ace_totals (cards h)). hand_value h \<le> t))"
proof -
  define s where "s = hard_total (cards h)"
  define a where "a = num_aces (cards h)"
  have a0: "0 \<le> a" unfolding a_def by (rule num_aces_nonneg)
  have hv: "hand_value h = adjust_aces (s + 10 * a) a"
    by (simp add: hand_value_def sum_cards_eq s_def a_def)
  have tot: "set (ace_totals (cards h)) = {s + 10 * k | k. 0 \<le> k \<and> k \<le> a}"
    unfolding s_def a_def by (rule ace_totals_set)
  from adjust_aces_spec [OF a0, of "s + 10 * a"] obtain j where j: "0 \<le> j" "j \<le> a"
    "adjust_aces (s + 10 * a) a = s + 10 * a - 10 * j"
    "s + 10 * a - 10 * j \<le> 21 \<or> j = a"
    "\<forall>i. 0 \<le> i \<and> i < j \<longrightarrow> s + 10 * a - 10 * i > 21"
    by blast
  have val: "hand_value h = s + 10 * (a - j)"
    using hv j(3) by (simp add: algebra_simps)
  have mem: "hand_value h \<in> set (ace_totals (cards h))"
    unfolding tot val using j by (intro CollectI exI [of _ "a - j"]) auto
  have above: "21 < s + 10 * k" if "a - j < k" "k \<le> a" for k
  proof -
    have "0 \<le> a - k \<and> a - k < j" using that by auto
    with j(5) have "s + 10 * a - 10 * (a - k) > 21" by blast
    then show ?thesis by (simp add: algebra_simps)
  qed
  show ?thesis
  proof (cases "\<exists>t\<in>set (ace_totals (cards h)). t \<le> 21")
    case True
    then obtain k where k: "0 \<le> k" "k \<le> a" "s + 10 * k \<le> 21"
      unfolding tot by auto
    have fits: "hand_value h \<le> 21"
    proof (cases "s + 10 * a - 10 * j \<le> 21")
      case True
      then show ?thesis using val by (simp add: algebra_simps)
    next
      case False
      with j(4) have "j = a" by simp
      then have "hand_value h = s" using val by simp
      moreover have "s \<le> s + 10 * k" using k by simp
      ultimately show ?thesis using k by simp
    qed
    have "t \<le> hand_value h" if "t \<in> set (ace_totals (cards h))" "t \<le> 21" for t
    proof -
      from that obtain k' where k': "0 \<le> k'" "k' \<le> a" "t = s + 10 * k'"
        unfolding tot by auto
      have "k' \<le> a - j"
      proof (rule ccontr)
        assume "\<not> k' \<le> a - j"
        then have "21 < s + 10 * k'" using above [of k'] k' by auto
        then show False using that k' by simp
      qed
      then show ?thesis using val k' by simp
    qed
    then show ?thesis using True mem fits by auto
  next
    case False
    have "\<not> (s + 10 * a - 10 * j \<le> 21)"
    proof
      assume "s + 10 * a - 10 * j \<le> 21"
      then have "hand_value h \<le> 21" using val by (simp add: algebra_simps)
      then show False using False mem by blast
    qed
    with j(4) have "j = a" by simp
    then have "hand_value h = s" using val by simp
    moreover have "s \<le> t" if "t \<in> set (ace_totals (cards h))" for t
      using that unfolding tot by auto
    ultimately show ?thesis using False mem by auto
  qed
qed

theorem hand_value_best_total_witness:
  "hand_value (new_hand\<lparr>cards := [Card RA HEARTS, Card RA SPADES, Card R9 CLUBS]\<rparr>) = 21 \<and>
   ace_totals [Card RA HEARTS, Card RA SPADES, Card R9 CLUBS] = [11, 21, 21, 31] \<and>
   hand_value (new_hand\<lparr>cards := [Card RK HEARTS, Card RA SPADES, Card R9 CLUBS, Card R5 CLUBS]\<rparr>) = 25 \<and>
   ace_totals [Card RK HEARTS, Card RA SPADES, Card R9 CLUBS, Card R5 CLUBS] = [25, 35]"
  using hand_value_best_total [of "new_hand\<lparr>cards := [Card RA HEARTS, Card RA SPADES, Card R9 CLUBS]\<rparr>"]
    hand_value_best_total [of "new_hand\<lparr>cards := [Card RK HEARTS, Card RA SPADES, Card R9 CLUBS, Card R5 CLUBS]\<rparr>"]
  by (simp add: new_hand_def Card_def card_value_def hand_value_def adjust_aces.simps)

section \<open>Soft hands\<close>

text \<open>
  Claim C2. \<open>Hand.is_soft\<close> should hold exactly when the best total counts an Ace as
  11. On Ace, Ace, 9 it does not: the hand can total 11, 21 or 31, \<open>Hand.value\<close> is the
  21 that counts one Ace as 11 (the hard total being 11), and \<open>Hand.is_soft\<close> is false,
  since it compares the sum with both Aces as 11 against 21.
\<close>

theorem is_soft_two_aces_nine:
  "hand_value (new_hand\<lparr>cards := [Card RA HEARTS, Card RA SPADES, Card R9 CLUBS]\<rparr>) = 21 \<and>
   hard_total [Card RA HEARTS, Card RA SPADES, Card R9 CLUBS] = 11 \<and>
   ace_totals [Card RA HEARTS, Card RA SPADES, Card R9 CLUBS] = [11, 21, 21, 31] \<and>
   is_soft (new_hand\<lparr>cards := [Card RA HEARTS, Card RA SPADES, Card R9 CLUBS]\<rparr>) = False"
  by (simp add: new_hand_def Card_def card_value_def hand_value_def is_soft_def
      adjust_aces.simps)

section \<open>Resolving a hand\<close>

text \<open>
  Claim C3. \<open>resolve_hand\<close> returns the profit in this precedence: a surrendered hand
  loses half the bet; else a bust hand loses the bet; else a player blackjack pushes
  against a dealer blackjack and wins bet times the blackjack payout otherwise; else a
  dealer bust wins the bet; else a dealer blackjack costs half the bet when the hand is
  insured and the bet otherwise; else the higher total wins the bet, the lower loses it
  and equal totals push.
\<close>

theorem resolve_hand_precedence:
  "resolve_hand g h =
   (if is_surrendered h then - 0.5 * bet h
    else if hand_value h > 21 then - bet h
    else if is_blackjack h then
      (if is_blackjack (dealer_hand g) then 0 else bet h * blackjack_payout (rules g))
    else if hand_value (dealer_hand g) > 21 then bet h
    else if is_blackjack (dealer_hand g) then (if is_insured h then - 0.5 * bet h else - bet h)
    else if hand_value h > hand_value (dealer_hand g) then bet h
    else if hand_value h < hand_value (dealer_hand g) then - bet h
    else 0)"
  by (simp add: resolve_hand_def Let_def)

theorem resolve_hand_precedence_witness:
  "resolve_hand
     ((BlackjackGame rev GameRules)\<lparr>dealer_hand := new_hand\<lparr>cards := [Card R10 CLUBS, Card R8 HEARTS]\<rparr>\<rparr>)
     (new_hand\<lparr>cards := [Card R10 SPADES, Card R9 HEARTS], bet := 100\<rparr>) = 100 \<and>
   resolve_hand
     ((BlackjackGame rev GameRules)\<lparr>dealer_hand := new_hand\<lparr>cards := [Card R10 CLUBS, Card R8 HEARTS]\<rparr>\<rparr>)
     (new_hand\<lparr>cards := [Card RA SPADES, Card RK HEARTS], bet := 100\<rparr>) = 150 \<and>
   resolve_hand
     ((BlackjackGame rev GameRules)\<lparr>dealer_hand := new_hand\<lparr>cards := [Card RQ CLUBS, Card RA HEARTS]\<rparr>\<rparr>)
     (new_hand\<lparr>cards := [Card RA SPADES, Card RK HEARTS], bet := 100\<rparr>) = 0 \<and>
   resolve_hand
     ((BlackjackGame rev GameRules)\<lparr>dealer_hand := new_hand\<lparr>cards := [Card RQ CLUBS, Card RA HEARTS]\<rparr>\<rparr>)
     (new_hand\<lparr>cards := [Card R10 SPADES, Card R6 HEARTS], bet := 100, is_surrendered := True\<rparr>) = - 50 \<and>
   resolve_hand
     ((BlackjackGame rev GameRules)\<lparr>dealer_hand := new_hand\<lparr>cards := [Card RQ CLUBS, Card RA HEARTS]\<rparr>\<rparr>)
     (new_hand\<lparr>cards := [Card R10 SPADES, Card R9 HEARTS], bet := 100, is_insured := True\<rparr>) = - 50"
  using
    resolve_hand_precedence [of
      "(BlackjackGame rev GameRules)\<lparr>dealer_hand := new_hand\<lparr>cards := [Card R10 CLUBS, Card R8 HEARTS]\<rparr>\<rparr>"
      "new_hand\<lparr>cards := [Card R10 SPADES, Card R9 HEARTS], bet := 100\<rparr>"]
    resolve_hand_precedence [of
      "(BlackjackGame rev GameRules)\<lparr>dealer_hand := new_hand\<lparr>cards := [Card R10 CLUBS, Card R8 HEARTS]\<rparr>\<rparr>"
      "new_hand\<lparr>cards := [Card RA SPADES, Card RK HEARTS], bet := 100\<rparr>"]
    resolve_hand_precedence [of
      "(BlackjackGame rev GameRules)\<lparr>dealer_hand := new_hand\<lparr>cards := [Card RQ CLUBS, Card RA HEARTS]\<rparr>\<rparr>"
      "new_hand\<lparr>cards := [Card RA SPADES, Card RK HEARTS], bet := 100\<rparr>"]
    resolve_hand_precedence [of
      "(BlackjackGame rev GameRules)\<lparr>dealer_hand := new_hand\<lparr>cards := [Card RQ CLUBS, Card RA HEARTS]\<rparr>\<rparr>"
      "new_hand\<lparr>cards := [Card R10 SPADES, Card R6 HEARTS], bet := 100, is_surrendered := True\<rparr>"]
    resolve_hand_precedence [of
      "(BlackjackGame rev GameRules)\<lparr>dealer_hand := new_hand\<lparr>cards := [Card RQ CLUBS, Card RA HEARTS]\<rparr>\<rparr>"
      "new_hand\<lparr>cards := [Card R10 SPADES, Card R9 HEARTS], bet := 100, is_insured := True\<rparr>"]
  by (simp add: BlackjackGame_def GameRules_def new_hand_def Card_def card_value_def
      hand_value_def is_blackjack_def adjust_aces.simps)

section \<open>Pairs of eights\<close>

text \<open>
  Claim C4. Under the default rules a pair of 8s that may be split should be split
  against every dealer upcard. Against a 10, a 9 or an Ace \<open>get_action\<close> of the
  default \<open>BasicStrategy()\<close> returns Surrender: the pair totals a hard 16, and the
  surrender table is consulted before the pair table, whose row for 8s holds Split for
  every upcard. Against a 7 the pair is split.
\<close>

theorem get_action_eights_vs_ten:
  "get_action BasicStrategy (new_hand\<lparr>cards := [Card R8 HEARTS, Card R8 SPADES]\<rparr>)
     (Card R10 CLUBS) True True True = SURRENDER \<and>
   get_action BasicStrategy (new_hand\<lparr>cards := [Card R8 HEARTS, Card R8 SPADES]\<rparr>)
     (Card R9 DIAMONDS) True True True = SURRENDER \<and>
   get_action BasicStrategy (new_hand\<lparr>cards := [Card R8 HEARTS, Card R8 SPADES]\<rparr>)
     (Card RA DIAMONDS) True True True = SURRENDER \<and>
   get_action BasicStrategy (new_hand\<lparr>cards := [Card R8 HEARTS, Card R8 SPADES]\<rparr>)
     (Card R7 DIAMONDS) True True True = SPLIT \<and>
   lookup_action (pair_strategy BasicStrategy) R8 (card_value (Card R10 CLUBS)) HIT = SPLIT"
  by (simp add: get_action_def BasicStrategy_def surrender_strategy_def new_hand_def Card_def
      card_value_def hand_value_def is_soft_def is_pair_def adjust_aces.simps
      lookup_action_def pair_strategy_def)

section \<open>True count\<close>

text \<open>
  Claim C9. For every running count and every \<open>decks_remaining\<close>, \<open>get_true_count\<close>
  returns a value and never raises \<open>ZeroDivisionError\<close>: the running count divided by
  \<open>decks_remaining\<close> when that is positive, and 0 when it is zero or negative.
\<close>

theorem get_true_count_total:
  "get_true_count k d = Inr (if d > 0 then real_of_int (running_count k) / d else 0)"
  by (simp add: get_true_count_def py_truediv_def)

theorem get_true_count_total_witness:
  "get_true_count \<lparr>running_count = 6, cards_seen = 20, starting_decks = 6\<rparr> 0 = Inr 0 \<and>
   get_true_count \<lparr>running_count = 6, cards_seen = 20, starting_decks = 6\<rparr> (- 1) = Inr 0 \<and>
   get_true_count \<lparr>running_count = 6, cards_seen = 20, starting_decks = 6\<rparr> 4 = Inr (3 / 2)"
  using get_true_count_total [of "\<lparr>running_count = 6, cards_seen = 20, starting_decks = 6\<rparr>" 0]
    get_true_count_total [of "\<lparr>running_count = 6, cards_seen = 20, starting_decks = 6\<rparr>" "- 1"]
    get_true_count_total [of "\<lparr>running_count = 6, cards_seen = 20, starting_decks = 6\<rparr>" 4]
  by simp

section \<open>Twenty-one on a split hand\<close>

text \<open>
  Claim C10. A split-derived hand of exactly two cards totalling 21 is a blackjack for
  \<open>is_blackjack\<close>, and \<open>resolve_hand\<close> pays it as it pays the same hand without the
  split flag: unless the hand was surrendered, a push against a dealer blackjack and bet
  times the blackjack payout against any other dealer hand.
\<close>

theorem split_twenty_one_is_blackjack:
  assumes "is_split h" and "length (cards h) = 2" and "hand_value h = 21"
  shows "is_blackjack h \<and>
    resolve_hand g h = resolve_hand g (h\<lparr>is_split := False\<rparr>) \<and>
    (\<not> is_surrendered h \<longrightarrow>
       resolve_hand g h =
         (if is_blackjack (dealer_hand g) then 0 else bet h * blackjack_payout (rules g)))"
  using assms by (simp add: resolve_hand_def Let_def is_blackjack_def hand_value_def)

theorem split_twenty_one_is_blackjack_witness:
  "map_sum id fst (split example_split_game) =
     Inr (\<lparr>cards = [Card RA HEARTS, Card RK CLUBS], bet = 100, is_split = True,
            is_doubled = False, is_surrendered = False, is_insured = False\<rparr>,
          \<lparr>cards = [Card RA SPADES, Card RQ DIAMONDS], bet = 100, is_split = True,
            is_doubled = False, is_surrendered = False, is_insured = False\<rparr>) \<and>
   is_blackjack \<lparr>cards = [Card RA HEARTS, Card RK CLUBS], bet = 100, is_split = True,
            is_doubled = False, is_surrendered = False, is_insured = False\<rparr> \<and>
   resolve_hand example_split_game
     \<lparr>cards = [Card RA HEARTS, Card RK CLUBS], bet = 100, is_split = True,
      is_doubled = False, is_surrendered = False, is_insured = False\<rparr> = 150"
proof -
  let ?h = "\<lparr>cards = [Card RA HEARTS, Card RK CLUBS], bet = 100, is_split = True,
      is_doubled = False, is_surrendered = False, is_insured = False\<rparr>"
  have v: "hand_value ?h = 21"
    by (simp add: hand_value_def Card_def card_value_def adjust_aces.simps)
  have d: "\<not> is_blackjack (dealer_hand example_split_game)"
    by (simp add: example_split_game_def is_blackjack_def hand_value_def new_hand_def Card_def
        card_value_def adjust_aces.simps)
  have s: "map_sum id fst (split example_split_game) =
     Inr (?h, \<lparr>cards = [Card RA SPADES, Card RQ DIAMONDS], bet = 100, is_split = True,
            is_doubled = False, is_surrendered = False, is_insured = False\<rparr>)"
    by (simp add: example_split_game_def split_def get_current_hand_def can_split_def
        is_pair_def new_hand_def Card_def GameRules_def deal_card_def add_card_def Let_def)
  from split_twenty_one_is_blackjack [of ?h example_split_game] v d
  have "is_blackjack ?h \<and> resolve_hand example_split_game ?h = 150"
    by (simp add: example_split_game_def GameRules_def)
  with s show ?thesis by simp
qed

section \<open>The shoe\<close>

lemma length_fresh_cards: "length (fresh_cards n) = 52 * nat n"
  by (simp add: fresh_cards_def ranks_def suits_def length_concat sum_list_replicate)

lemma permutes_cards_length: "permutes_cards shuffle \<Longrightarrow> length (shuffle cs) = length cs"
  unfolding permutes_cards_def by (metis size_mset)

lemma reset_fields:
  assumes "permutes_cards shuffle"
  shows "length (deck_cards (reset shuffle d)) = 52 * nat (num_decks d)"
    and "mset (deck_cards (reset shuffle d)) = mset (fresh_cards (num_decks d))"
    and "discards (reset shuffle d) = []"
    and "num_decks (reset shuffle d) = num_decks d"
    and "cut_card_position (reset shuffle d) = 13 * int (nat (num_decks d))"
proof -
  have len: "length (shuffle (fresh_cards (num_decks d))) = 52 * nat (num_decks d)"
    using permutes_cards_length [OF assms] by (simp add: length_fresh_cards)
  show "length (deck_cards (reset shuffle d)) = 52 * nat (num_decks d)"
    using len by (simp add: reset_def Let_def)
  show "mset (deck_cards (reset shuffle d)) = mset (fresh_cards (num_decks d))"
    using assms by (simp add: reset_def Let_def permutes_cards_def)
  show "discards (reset shuffle d) = []"
    by (simp add: reset_def Let_def)
  show "num_decks (reset shuffle d) = num_decks d"
    by (simp add: reset_def Let_def)
  have "\<lfloor>real (52 * nat (num_decks d)) * 0.25\<rfloor> = \<lfloor>real (13 * nat (num_decks d))\<rfloor>"
    by simp
  also have "\<dots> = 13 * int (nat (num_decks d))"
    by (simp only: floor_of_nat)
  finally show "cut_card_position (reset shuffle d) = 13 * int (nat (num_decks d))"
    using len by (simp add: reset_def Let_def)
qed

lemma deal_card_Inr:
  assumes "deal_card d = Inr (c, d')"
  shows "deck_cards d = deck_cards d' @ [c]" and "discards d' = discards d @ [c]"
    and "num_decks d' = num_decks d" and "cut_card_position d' = cut_card_position d"
  using assms by (auto simp: deal_card_def Let_def split: if_splits)

lemma deal_card_Inl: "deal_card d = Inl e \<longleftrightarrow> deck_cards d = [] \<and> e = DeckEmpty"
  by (auto simp: deal_card_def Let_def)

lemma deals_to_invariant:
  assumes "deals_to d0 d"
  shows "num_decks d = num_decks d0 \<and> cut_card_position d = cut_card_position d0 \<and>
    mset (deck_cards d) + mset (discards d) = mset (deck_cards d0) + mset (discards d0)"
  using assms
proof (induction rule: deals_to.induct)
  case (deals_refl d)
  show ?case by simp
next
  case (deals_step d d' c d'')
  from deal_card_Inr [OF deals_step.hyps(2)] deals_step.IH show ?case
    by simp
qed

text \<open>
  Claim C8. Between resets, whatever \<open>deal_card\<close> calls are made, the cards remaining
  and the discards add up to 52 times the number of decks (and together are the cards
  of the fresh shoe); a successful \<open>deal_card\<close> takes exactly one card off the live
  sequence and appends that card to the discards; on an empty shoe \<open>deal_card\<close> fails
  and returns no card.
\<close>

theorem shoe_conservation:
  assumes "0 \<le> num_decks d0" and "permutes_cards shuffle"
    and "deals_to (reset shuffle d0) d"
  shows "cards_remaining d + int (length (discards d)) = 52 * num_decks d \<and>
    mset (deck_cards d) + mset (discards d) = mset (fresh_cards (num_decks d)) \<and>
    (case deal_card d of
       Inl e \<Rightarrow> e = DeckEmpty \<and> cards_remaining d = 0
     | Inr (c, d') \<Rightarrow>
         deck_cards d = deck_cards d' @ [c] \<and> discards d' = discards d @ [c] \<and>
         cards_remaining d' = cards_remaining d - 1 \<and>
         cards_remaining d' + int (length (discards d')) = 52 * num_decks d') \<and>
    (cards_remaining d = 0 \<longrightarrow> deal_card d = Inl DeckEmpty)"
proof -
  note inv = deals_to_invariant [OF assms(3)]
  note rs = reset_fields [OF assms(2), of d0]
  have nd: "num_decks d = num_decks d0" using inv rs by simp
  have ms: "mset (deck_cards d) + mset (discards d) = mset (fresh_cards (num_decks d))"
    using inv rs nd by simp
  have "size (mset (deck_cards d) + mset (discards d)) = length (fresh_cards (num_decks d))"
    unfolding ms by simp
  then have sum: "cards_remaining d + int (length (discards d)) = 52 * num_decks d"
    using assms(1) nd by (simp add: cards_remaining_def length_fresh_cards)
  have deal: "(case deal_card d of
       Inl e \<Rightarrow> e = DeckEmpty \<and> cards_remaining d = 0
     | Inr (c, d') \<Rightarrow>
         deck_cards d = deck_cards d' @ [c] \<and> discards d' = discards d @ [c] \<and>
         cards_remaining d' = cards_remaining d - 1 \<and>
         cards_remaining d' + int (length (discards d')) = 52 * num_decks d')"
  proof (cases "deal_card d")
    case (Inl e)
    then show ?thesis using deal_card_Inl [of d e] by (simp add: cards_remaining_def)
  next
    case (Inr p)
    obtain c d' where p: "p = (c, d')" by (cases p)
    from deal_card_Inr [of d c d'] Inr p sum show ?thesis
      by (simp add: cards_remaining_def)
  qed
  have "cards_remaining d = 0 \<longrightarrow> deal_card d = Inl DeckEmpty"
    by (simp add: cards_remaining_def deal_card_def)
  with sum ms deal show ?thesis by blast
qed

lemma permutes_cards_rev: "permutes_cards rev"
  by (simp add: permutes_cards_def)

theorem shoe_conservation_witness:
  "deal_card (Deck rev 1) =
     Inr (Card R2 HEARTS,
          (Deck rev 1)\<lparr>deck_cards := butlast (deck_cards (Deck rev 1)),
                        discards := [Card R2 HEARTS]\<rparr>) \<and>
   cards_remaining ((Deck rev 1)\<lparr>deck_cards := butlast (deck_cards (Deck rev 1)),
                        discards := [Card R2 HEARTS]\<rparr>) = 51 \<and>
   cards_remaining ((Deck rev 1)\<lparr>deck_cards := butlast (deck_cards (Deck rev 1)),
                        discards := [Card R2 HEARTS]\<rparr>) + int (length [Card R2 HEARTS]) = 52 * 1"
proof -
  let ?d0 = "\<lparr>num_decks = 1, deck_cards = [], discards = [], cut_card_position = 0\<rparr>"
  let ?d1 = "(Deck rev 1)\<lparr>deck_cards := butlast (deck_cards (Deck rev 1)),
                        discards := [Card R2 HEARTS]\<rparr>"
  have deal: "deal_card (Deck rev 1) = Inr (Card R2 HEARTS, ?d1)"
    by (simp add: Deck_def reset_def deal_card_def fresh_cards_def ranks_def suits_def Let_def)
  have "deals_to (reset rev ?d0) (reset rev ?d0)"
    by (rule deals_refl)
  then have "deals_to (reset rev ?d0) ?d1"
    using deal unfolding Deck_def by (rule deals_step)
  from shoe_conservation [OF _ permutes_cards_rev this]
  have "cards_remaining ?d1 + int (length (discards ?d1)) = 52 * num_decks ?d1"
    by simp
  moreover have "num_decks ?d1 = 1"
    by (simp add: Deck_def reset_def Let_def)
  moreover have "cards_remaining ?d1 = 51"
    by (simp add: Deck_def reset_def cards_remaining_def fresh_cards_def ranks_def suits_def
        Let_def)
  ultimately show ?thesis using deal by simp
qed

section \<open>The cut card\<close>

text \<open>
  Claim C6 says that the cut-card index follows the configured penetration. It does
  not: with six decks and a penetration of one half the index is 78, not 156.
\<close>

theorem cut_card_half_penetration:
  "cut_card_position (deck (BlackjackGame rev (GameRules\<lparr>penetration := 0.5\<rparr>))) = 78 \<and>
   \<lfloor>real_of_int (52 * rules_num_decks (GameRules\<lparr>penetration := 0.5\<rparr>)) *
     (1 - penetration (GameRules\<lparr>penetration := 0.5\<rparr>))\<rfloor> = 156"
proof -
  have "cut_card_position (deck (BlackjackGame rev (GameRules\<lparr>penetration := 0.5\<rparr>))) = 78"
    using reset_fields(5) [OF permutes_cards_rev]
    by (simp add: BlackjackGame_def Deck_def GameRules_def)
  moreover have "\<lfloor>real_of_int (52 * rules_num_decks (GameRules\<lparr>penetration := 0.5\<rparr>)) *
     (1 - penetration (GameRules\<lparr>penetration := 0.5\<rparr>))\<rfloor> = 156"
    by (simp add: GameRules_def)
  ultimately show ?thesis by simp
qed

text \<open>
  Claim C6, amended. Whatever penetration the rules configure, for every deck count
  \<open>N \<ge> 0\<close> the cut-card index after a reset is \<open>floor(52 * N * 0.25) = 13 * N\<close>, the
  value of the penetration 0.75; it stays there while cards are dealt, and
  \<open>needs_shuffle\<close> holds exactly when the cards remaining are at most that index.
\<close>

theorem cut_card_quarter:
  assumes "0 \<le> num_decks d0" and "permutes_cards shuffle"
    and "deals_to (reset shuffle d0) d"
  shows "cut_card_position (reset shuffle d0) =
      \<lfloor>real_of_int (52 * num_decks d0) * (1 - 0.75)\<rfloor> \<and>
    cut_card_position (reset shuffle d0) = 13 * num_decks d0 \<and>
    cut_card_position d = cut_card_position (reset shuffle d0) \<and>
    (needs_shuffle d \<longleftrightarrow> cards_remaining d \<le> 13 * num_decks d0) \<and>
    deck (BlackjackGame shuffle (r\<lparr>penetration := p\<rparr>)) = deck (BlackjackGame shuffle r)"
proof -
  have cut: "cut_card_position (reset shuffle d0) = 13 * num_decks d0"
    using reset_fields(5) [OF assms(2), of d0] assms(1) by simp
  have "real_of_int (52 * num_decks d0) * (1 - 0.75) = real_of_int (13 * num_decks d0)"
    by simp
  then have fl: "\<lfloor>real_of_int (52 * num_decks d0) * (1 - 0.75)\<rfloor> = 13 * num_decks d0"
    by (simp only: floor_of_int)
  have same: "cut_card_position d = cut_card_position (reset shuffle d0)"
    using deals_to_invariant [OF assms(3)] by simp
  have "needs_shuffle d \<longleftrightarrow> cards_remaining d \<le> 13 * num_decks d0"
    using same cut by (simp add: needs_shuffle_def cards_remaining_def)
  moreover have "deck (BlackjackGame shuffle (r\<lparr>penetration := p\<rparr>)) = deck (BlackjackGame shuffle r)"
    by (simp add: BlackjackGame_def)
  ultimately show ?thesis using cut fl same by simp
qed

theorem cut_card_quarter_witness:
  "cut_card_position (reset rev \<lparr>num_decks = 6, deck_cards = [], discards = [],
      cut_card_position = 0\<rparr>) = 78 \<and>
   needs_shuffle (reset rev \<lparr>num_decks = 6, deck_cards = [], discards = [],
      cut_card_position = 0\<rparr>) = False \<and>
   cards_remaining (reset rev \<lparr>num_decks = 6, deck_cards = [], discards = [],
      cut_card_position = 0\<rparr>) = 312"
proof -
  let ?d0 = "\<lparr>num_decks = 6, deck_cards = [], discards = [], cut_card_position = 0\<rparr>"
  have "deals_to (reset rev ?d0) (reset rev ?d0)"
    by (rule deals_refl)
  from cut_card_quarter [OF _ permutes_cards_rev this, where r = GameRules and p = "0.5"]
  have "cut_card_position (reset rev ?d0) = 78 \<and>
    (needs_shuffle (reset rev ?d0) \<longleftrightarrow> cards_remaining (reset rev ?d0) \<le> 78)"
    by simp
  moreover have "cards_remaining (reset rev ?d0) = 312"
    using reset_fields(1) [OF permutes_cards_rev, of ?d0] by (simp add: cards_remaining_def)
  ultimately show ?thesis by simp
qed

section \<open>The cursor during the player's turn\<close>

lemma hit_Inr:
  assumes "get_current_hand g = Inr h" and "hit g = Inr (c, g1)"
  shows "current_hand_index g1 = current_hand_index g"
    and "get_current_hand g1 = Inr (add_card h c)"
    and "length (player_hands g1) = length (player_hands g)"
  using assms
  by (auto simp: hit_def get_current_hand_def set_current_hand_def
      split: if_splits sum.splits prod.splits)

lemma double_down_Inr:
  assumes "double_down g = Inr (c, g1)"
  shows "current_hand_index g1 = current_hand_index g + 1"
    and "length (player_hands g1) = length (player_hands g)"
  using assms
  by (auto simp: double_down_def get_current_hand_def set_current_hand_def Let_def
      split: if_splits sum.splits prod.splits)

lemma surrender_Inr:
  assumes "surrender g = Inr g1"
  shows "current_hand_index g1 = current_hand_index g + 1"
    and "length (player_hands g1) = length (player_hands g)"
  using assms
  by (auto simp: surrender_def get_current_hand_def set_current_hand_def Let_def
      split: if_splits sum.splits prod.splits)

lemma two_cards: "length cs = 2 \<Longrightarrow> cs = [cs ! 0, cs ! 1]"
  by (cases cs; cases "tl cs") auto

lemma split_Inr:
  assumes "get_current_hand g = Inr h" and "split g = Inr ((h1, n1), g1)"
  shows "current_hand_index g1 = current_hand_index g"
    and "player_hands g1 =
      take (current_hand_index g) (player_hands g) @ [h1, n1] @
      drop (current_hand_index g + 1) (player_hands g)"
    and "cards h1 = [cards h ! 0, last (deck_cards (deck g))]"
    and "cards n1 = [cards h ! 1, last (butlast (deck_cards (deck g)))]"
    and "bet n1 = bet h" and "bet h1 = bet h" and "is_split h1" and "is_split n1"
proof -
  let ?i = "current_hand_index g"
  from assms(1) have i: "?i < length (player_hands g)" and h: "h = player_hands g ! ?i"
    by (auto simp: get_current_hand_def split: if_splits)
  from assms have cs: "can_split h"
    by (auto simp: split_def split: if_splits)
  then have len: "length (cards h) = 2"
    by (auto simp: can_split_def is_pair_def split: if_splits)
  from two_cards [OF len] have ch: "cards h = [cards h ! 0, cards h ! 1]" .
  then have bl: "butlast (cards h) = [cards h ! 0]" and la: "last (cards h) = cards h ! 1"
    by (metis butlast.simps(2) butlast_snoc append_Cons append_Nil list.distinct(1),
        metis last.simps list.distinct(1))
  from assms cs obtain c1 d1 c2 d2 where
    d1: "deal_card (deck g) = Inr (c1, d1)" and d2: "deal_card d1 = Inr (c2, d2)"
    by (auto simp: split_def Let_def split: if_splits sum.splits prod.splits)
  from d1 have c1: "c1 = last (deck_cards (deck g))" and dc1: "deck_cards d1 = butlast (deck_cards (deck g))"
    by (auto simp: deal_card_def Let_def split: if_splits)
  from d2 dc1 have c2: "c2 = last (butlast (deck_cards (deck g)))"
    by (auto simp: deal_card_def Let_def split: if_splits)
  from assms cs d1 d2 have
    h1: "h1 = add_card (h\<lparr>cards := butlast (cards h), is_split := True\<rparr>) c1" and
    n1: "n1 = add_card ((add_card new_hand (last (cards h)))\<lparr>bet := bet h, is_split := True\<rparr>) c2" and
    g1: "g1 = g\<lparr>deck := d2, player_hands :=
        take (?i + 1) ((player_hands g)[?i := h1]) @ [n1] @
        drop (?i + 1) ((player_hands g)[?i := h1])\<rparr>"
    by (auto simp: split_def Let_def split: if_splits)
  show "current_hand_index g1 = ?i" using g1 by simp
  have "take (?i + 1) ((player_hands g)[?i := h1]) = take ?i (player_hands g) @ [h1]"
    using i by (simp add: take_Suc_conv_app_nth)
  then show "player_hands g1 =
      take ?i (player_hands g) @ [h1, n1] @ drop (?i + 1) (player_hands g)"
    using g1 by simp
  show "cards h1 = [cards h ! 0, last (deck_cards (deck g))]"
    using h1 bl c1 by (simp add: add_card_def)
  show "cards n1 = [cards h ! 1, last (butlast (deck_cards (deck g)))]"
    using n1 la c2 by (simp add: add_card_def new_hand_def)
  show "bet n1 = bet h" using n1 by (simp add: add_card_def)
  show "bet h1 = bet h" using h1 by (simp add: add_card_def)
  show "is_split h1" using h1 by (simp add: add_card_def)
  show "is_split n1" using n1 by (simp add: add_card_def)
qed

text \<open>
  Claim C7. While a player hand is being decided, Stand, a successful Double and a
  successful Surrender move \<open>current_hand_index\<close> on by exactly one; so does a Hit that
  busts the hand (\<open>hit\<close> itself leaves the cursor alone, the turn loop stands the bust
  hand); a Hit that does not bust leaves the cursor where it is. A successful Split
  leaves the cursor where it is and puts the new hand right behind the current one: the
  current hand keeps its first card and gets the next card of the shoe, the new hand
  gets the second card and the card after.
\<close>

theorem player_turn_cursor:
  assumes "get_current_hand g = Inr h" and "\<not> is_bust h"
  shows "player_turn ''S'' g = Inr (stand g) \<and>
    current_hand_index (stand g) = current_hand_index g + 1 \<and>
    (\<forall>c g1. double_down g = Inr (c, g1) \<longrightarrow>
       player_turn ''D'' g = Inr g1 \<and> current_hand_index g1 = current_hand_index g + 1) \<and>
    (\<forall>g1. surrender g = Inr g1 \<longrightarrow>
       player_turn ''SR'' g = Inr g1 \<and> current_hand_index g1 = current_hand_index g + 1) \<and>
    (\<forall>c g1. hit g = Inr (c, g1) \<longrightarrow>
       current_hand_index g1 = current_hand_index g \<and>
       (if is_bust (add_card h c)
        then player_turn ''H'' g = Inr (stand g1) \<and>
             current_hand_index (stand g1) = current_hand_index g + 1
        else player_turn ''H'' g = Inr g1)) \<and>
    (\<forall>h1 n1 g1. split g = Inr ((h1, n1), g1) \<longrightarrow>
       player_turn ''SP'' g = Inr g1 \<and>
       current_hand_index g1 = current_hand_index g \<and>
       get_current_hand g1 = Inr h1 \<and>
       player_hands g1 =
         take (current_hand_index g) (player_hands g) @ [h1, n1] @
         drop (current_hand_index g + 1) (player_hands g) \<and>
       cards h1 = [cards h ! 0, last (deck_cards (deck g))] \<and>
       cards n1 = [cards h ! 1, last (butlast (deck_cards (deck g)))])"
proof -
  have st: "player_turn ''S'' g = Inr (stand g)"
    using assms by (simp add: player_turn_def)
  have sti: "current_hand_index (stand g) = current_hand_index g + 1"
    by (simp add: stand_def)
  have dbl: "player_turn ''D'' g = Inr g1 \<and> current_hand_index g1 = current_hand_index g + 1"
    if "double_down g = Inr (c, g1)" for c g1
    using assms that double_down_Inr(1) [OF that] by (simp add: player_turn_def)
  have sur: "player_turn ''SR'' g = Inr g1 \<and> current_hand_index g1 = current_hand_index g + 1"
    if "surrender g = Inr g1" for g1
    using assms that surrender_Inr(1) [OF that] by (simp add: player_turn_def)
  have ht: "current_hand_index g1 = current_hand_index g \<and>
       (if is_bust (add_card h c)
        then player_turn ''H'' g = Inr (stand g1) \<and>
             current_hand_index (stand g1) = current_hand_index g + 1
        else player_turn ''H'' g = Inr g1)"
    if "hit g = Inr (c, g1)" for c g1
    using assms that hit_Inr(1,2) [OF assms(1) that] by (simp add: player_turn_def stand_def)
  have sp: "player_turn ''SP'' g = Inr g1 \<and>
       current_hand_index g1 = current_hand_index g \<and>
       get_current_hand g1 = Inr h1 \<and>
       player_hands g1 =
         take (current_hand_index g) (player_hands g) @ [h1, n1] @
         drop (current_hand_index g + 1) (player_hands g) \<and>
       cards h1 = [cards h ! 0, last (deck_cards (deck g))] \<and>
       cards n1 = [cards h ! 1, last (butlast (deck_cards (deck g)))]"
    if "split g = Inr ((h1, n1), g1)" for h1 n1 g1
  proof -
    note s = split_Inr [OF assms(1) that]
    have i: "current_hand_index g < length (player_hands g)"
      using assms(1) by (auto simp: get_current_hand_def split: if_splits)
    have "get_current_hand g1 = Inr h1"
      using s(1,2) i by (simp add: get_current_hand_def nth_append)
    moreover have "player_turn ''SP'' g = Inr g1"
      using assms that by (simp add: player_turn_def)
    ultimately show ?thesis using s by simp
  qed
  from st sti dbl sur ht sp show ?thesis by blast
qed

lemmas example_eval =
  get_current_hand_def set_current_hand_def hit_def stand_def double_down_def split_def
  surrender_def player_turn_def deal_card_def add_card_def new_hand_def Card_def GameRules_def
  can_split_def can_double_def is_pair_def is_bust_def hand_value_def card_value_def
  adjust_aces.simps Let_def

theorem player_turn_cursor_witness:
  "current_hand_index example_bust_game = 0 \<and>
   map_sum id current_hand_index (player_turn ''H'' example_bust_game) = Inr 1 \<and>
   current_hand_index example_split_game = 0 \<and>
   map_sum id current_hand_index (player_turn ''S'' example_split_game) = Inr 1 \<and>
   map_sum id current_hand_index (player_turn ''D'' example_split_game) = Inr 1 \<and>
   map_sum id current_hand_index (player_turn ''SR'' example_split_game) = Inr 1 \<and>
   map_sum id current_hand_index (player_turn ''H'' example_split_game) = Inr 0 \<and>
   map_sum id current_hand_index (player_turn ''SP'' example_split_game) = Inr 0 \<and>
   map_sum id (map cards \<circ> player_hands) (player_turn ''SP'' example_split_game) =
     Inr [[Card RA HEARTS, Card RK CLUBS], [Card RA SPADES, Card RQ DIAMONDS]]"
proof -
  let ?hb = "new_hand\<lparr>cards := [Card RK SPADES, Card R9 HEARTS], bet := 50\<rparr>"
  let ?hs = "new_hand\<lparr>cards := [Card RA HEARTS, Card RA SPADES], bet := 100\<rparr>"
  have cb: "get_current_hand example_bust_game = Inr ?hb"
    by (simp add: example_bust_game_def get_current_hand_def)
  have nb: "\<not> is_bust ?hb"
    by (simp add: example_eval)
  have cs: "get_current_hand example_split_game = Inr ?hs"
    by (simp add: example_split_game_def get_current_hand_def)
  have ns: "\<not> is_bust ?hs"
    by (simp add: example_eval)
  obtain g1 where g1: "hit example_bust_game = Inr (Card RQ DIAMONDS, g1)"
    by (simp add: example_bust_game_def example_eval)
  have bust: "is_bust (add_card ?hb (Card RQ DIAMONDS))"
    by (simp add: example_eval)
  from player_turn_cursor [OF cb nb] g1 bust
  have "player_turn ''H'' example_bust_game = Inr (stand g1) \<and>
    current_hand_index (stand g1) = current_hand_index example_bust_game + 1"
    by (simp split: if_splits)
  then have h: "map_sum id current_hand_index (player_turn ''H'' example_bust_game) = Inr 1"
    by (simp add: example_bust_game_def)
  from player_turn_cursor [OF cs ns]
  have "player_turn ''S'' example_split_game = Inr (stand example_split_game) \<and>
    current_hand_index (stand example_split_game) = current_hand_index example_split_game + 1"
    by blast
  then have s: "map_sum id current_hand_index (player_turn ''S'' example_split_game) = Inr 1"
    by (simp add: example_split_game_def)
  have d: "map_sum id current_hand_index (player_turn ''D'' example_split_game) = Inr 1"
    by (simp add: example_split_game_def example_eval)
  have sr: "map_sum id current_hand_index (player_turn ''SR'' example_split_game) = Inr 1"
    by (simp add: example_split_game_def example_eval)
  have hh: "map_sum id current_hand_index (player_turn ''H'' example_split_game) = Inr 0"
    by (simp add: example_split_game_def example_eval)
  have sp: "map_sum id current_hand_index (player_turn ''SP'' example_split_game) = Inr 0"
    by (simp add: example_split_game_def example_eval)
  have sph: "map_sum id (map cards \<circ> player_hands) (player_turn ''SP'' example_split_game) =
     Inr [[Card RA HEARTS, Card RK CLUBS], [Card RA SPADES, Card RQ DIAMONDS]]"
    by (simp add: example_split_game_def example_eval)
  have "current_hand_index example_bust_game = 0" "current_hand_index example_split_game = 0"
    by (simp_all add: example_bust_game_def example_split_game_def)
  with h s d sr hh sp sph show ?thesis by simp
qed

section \<open>The dealer's turn\<close>

lemma hard_total_le_hand_value: "hard_total (cards h) \<le> hand_value h"
proof -
  from adjust_aces_spec [OF num_aces_nonneg,
      of "cards h" "hard_total (cards h) + 10 * num_aces (cards h)"]
  obtain j where "j \<le> num_aces (cards h)"
    "adjust_aces (hard_total (cards h) + 10 * num_aces (cards h)) (num_aces (cards h)) =
       hard_total (cards h) + 10 * num_aces (cards h) - 10 * j"
    by blast
  then show ?thesis by (simp add: hand_value_def sum_cards_eq)
qed

lemma hard_total_append: "hard_total (cs @ ds) = hard_total cs + hard_total ds"
  by (induction cs) auto

lemma card_value_pos: "rank c \<noteq> RA \<Longrightarrow> 2 \<le> card_value c"
  by (cases "rank c") (auto simp: card_value_def)

lemma hard_total_add_card: "hard_total (cards h) < hard_total (cards (add_card h c))"
  using card_value_pos [of c] by (auto simp: add_card_def hard_total_append)

text \<open>What one run of the dealer loop guarantees, by induction along the loop.\<close>

lemma play_dealer_hand_Inl:
  "play_dealer_hand g = Inl e \<Longrightarrow>
   e = DeckEmpty \<and> int (length (deck_cards (deck g))) + hard_total (cards (dealer_hand g)) < 18"
proof (induction g rule: play_dealer_hand.induct)
  case (1 g)
  let ?v = "hand_value (dealer_hand g)"
  have hit: "?v < 17 \<or> (?v = 17 \<and> dealer_hits_soft_17 (rules g) \<and> is_soft (dealer_hand g))"
    using "1.prems" by (subst (asm) play_dealer_hand.simps) (auto simp: Let_def split: if_splits)
  then have v: "?v \<le> 17" by auto
  have hv: "hard_total (cards (dealer_hand g)) \<le> 17"
    using hard_total_le_hand_value [of "dealer_hand g"] v by simp
  show ?case
  proof (cases "deal_card (deck g)")
    case (Inl e')
    then have "play_dealer_hand g = Inl e'"
      using hit by (subst play_dealer_hand.simps) (auto simp: Let_def)
    moreover have "e' = DeckEmpty" "deck_cards (deck g) = []"
      using Inl by (auto simp: deal_card_def Let_def split: if_splits)
    ultimately show ?thesis using "1.prems" hv by simp
  next
    case (Inr p)
    obtain c d where p: "p = (c, d)" by (cases p)
    let ?g = "g\<lparr>dealer_hand := add_card (dealer_hand g) c, deck := d\<rparr>"
    have step: "play_dealer_hand g = play_dealer_hand ?g"
      using hit Inr p by (subst play_dealer_hand.simps) (auto simp: Let_def)
    have len: "length (deck_cards (deck g)) = length (deck_cards d) + 1"
      using Inr p by (auto simp: deal_card_def Let_def split: if_splits)
    have ih: "e = DeckEmpty \<and>
        int (length (deck_cards (deck ?g))) + hard_total (cards (dealer_hand ?g)) < 18"
    proof (cases "?v = 17")
      case True
      with hit have "\<not> 21 < ?v" "\<not> 17 < ?v" "?v = 17"
        "dealer_hits_soft_17 (rules g) \<and> is_soft (dealer_hand g)" by auto
      from "1.IH"(1) [OF refl this Inr [unfolded p] refl] step "1.prems" show ?thesis by simp
    next
      case False
      with hit have "\<not> 21 < ?v" "\<not> 17 < ?v" "?v \<noteq> 17" by auto
      from "1.IH"(2) [OF refl this Inr [unfolded p] refl] step "1.prems" show ?thesis by simp
    qed
    then show ?thesis
      using len hard_total_add_card [of "dealer_hand g" c] by simp
  qed
qed

lemma play_dealer_hand_Inr:
  "play_dealer_hand g = Inr g' \<Longrightarrow>
   rules g' = rules g \<and> player_hands g' = player_hands g \<and>
   (\<exists>cs. cards (dealer_hand g') = cards (dealer_hand g) @ cs \<and>
         deck_cards (deck g) = deck_cards (deck g') @ rev cs) \<and>
   (hand_value (dealer_hand g') > 17 \<or>
    hand_value (dealer_hand g') = 17 \<and>
      \<not> (dealer_hits_soft_17 (rules g) \<and> is_soft (dealer_hand g')))"
proof (induction g rule: play_dealer_hand.induct)
  case (1 g)
  let ?v = "hand_value (dealer_hand g)"
  show ?case
  proof (cases "?v < 17 \<or> (?v = 17 \<and> dealer_hits_soft_17 (rules g) \<and> is_soft (dealer_hand g))")
    case False
    then have "play_dealer_hand g = Inr g"
      by (subst play_dealer_hand.simps) (auto simp: Let_def)
    with "1.prems" have "g' = g" by simp
    then show ?thesis using False by auto
  next
    case hit: True
    show ?thesis
    proof (cases "deal_card (deck g)")
      case (Inl e')
      then have "play_dealer_hand g = Inl e'"
        using hit by (subst play_dealer_hand.simps) (auto simp: Let_def)
      with "1.prems" show ?thesis by simp
    next
      case (Inr p)
      obtain c d where p: "p = (c, d)" by (cases p)
      let ?g = "g\<lparr>dealer_hand := add_card (dealer_hand g) c, deck := d\<rparr>"
      have step: "play_dealer_hand g = play_dealer_hand ?g"
        using hit Inr p by (subst play_dealer_hand.simps) (auto simp: Let_def)
      have dc: "deck_cards (deck g) = deck_cards d @ [c]"
        using Inr p by (auto simp: deal_card_def Let_def split: if_splits)
      have ih: "rules g' = rules ?g \<and> player_hands g' = player_hands ?g \<and>
        (\<exists>cs. cards (dealer_hand g') = cards (dealer_hand ?g) @ cs \<and>
              deck_cards (deck ?g) = deck_cards (deck g') @ rev cs) \<and>
        (hand_value (dealer_hand g') > 17 \<or>
         hand_value (dealer_hand g') = 17 \<and>
           \<not> (dealer_hits_soft_17 (rules ?g) \<and> is_soft (dealer_hand g')))"
      proof (cases "?v = 17")
        case True
        with hit have "\<not> 21 < ?v" "\<not> 17 < ?v" "?v = 17"
          "dealer_hits_soft_17 (rules g) \<and> is_soft (dealer_hand g)" by auto
        from "1.IH"(1) [OF refl this Inr [unfolded p] refl] step "1.prems" show ?thesis by simp
      next
        case False
        with hit have "\<not> 21 < ?v" "\<not> 17 < ?v" "?v \<noteq> 17" by auto
        from "1.IH"(2) [OF refl this Inr [unfolded p] refl] step "1.prems" show ?thesis by simp
      qed
      then obtain cs where cs: "cards (dealer_hand g') = cards (dealer_hand ?g) @ cs"
        "deck_cards (deck ?g) = deck_cards (deck g') @ rev cs"
        by blast
      have "cards (dealer_hand g') = cards (dealer_hand g) @ (c # cs) \<and>
          deck_cards (deck g) = deck_cards (deck g') @ rev (c # cs)"
        using cs dc by (simp add: add_card_def)
      then have "\<exists>cs. cards (dealer_hand g') = cards (dealer_hand g) @ cs \<and>
          deck_cards (deck g) = deck_cards (deck g') @ rev cs"
        by blast
      with ih show ?thesis by simp
    qed
  qed
qed

lemma play_dealer_hand_stand:
  assumes "hand_value (dealer_hand g) = 17"
    and "\<not> (dealer_hits_soft_17 (rules g) \<and> is_soft (dealer_hand g))"
  shows "play_dealer_hand g = Inr g"
  using assms by (subst play_dealer_hand.simps) (auto simp: Let_def)

text \<open>
  Claim C5 says that every hit busts the dealer hand or raises its value, and that under
  H17 every exit at 17 is a hard 17. Neither holds: Ace, 6 hit with a 5 drops from 17 to
  12 without busting; and under H17 the dealer who draws a 5 to Ace, Ace stops at 17, a
  total that counts one Ace as 11 (the hard total is 7), because \<open>is_soft\<close> is false
  for that hand.
\<close>

theorem dealer_hit_and_soft_seventeen:
  "hand_value (new_hand\<lparr>cards := [Card RA HEARTS, Card R6 CLUBS]\<rparr>) = 17 \<and>
   hand_value (add_card (new_hand\<lparr>cards := [Card RA HEARTS, Card R6 CLUBS]\<rparr>) (Card R5 SPADES)) = 12 \<and>
   \<not> is_bust (add_card (new_hand\<lparr>cards := [Card RA HEARTS, Card R6 CLUBS]\<rparr>) (Card R5 SPADES)) \<and>
   dealer_hits_soft_17 (rules example_h17_game) \<and>
   map_sum id (cards \<circ> dealer_hand) (play_dealer_hand example_h17_game) =
     Inr [Card RA HEARTS, Card RA SPADES, Card R5 CLUBS] \<and>
   hand_value (new_hand\<lparr>cards := [Card RA HEARTS, Card RA SPADES, Card R5 CLUBS]\<rparr>) = 17 \<and>
   hard_total [Card RA HEARTS, Card RA SPADES, Card R5 CLUBS] = 7 \<and>
   ace_totals [Card RA HEARTS, Card RA SPADES, Card R5 CLUBS] = [7, 17, 17, 27]"
  by (simp add: example_h17_game_def play_dealer_hand.simps is_soft_def is_bust_def
      hand_value_def card_value_def adjust_aces.simps deal_card_def add_card_def new_hand_def
      Card_def GameRules_def Let_def)

text \<open>
  Claim C5, amended. \<open>play_dealer_hand\<close> always terminates: it returns, or it fails with
  the exception of the empty shoe, and that only when the shoe held fewer than 18 minus
  the hard total of the dealer hand cards; every hit raises the hard total (each Ace
  counted as 1) of the hand. On return the rules and the player hands are as before, the
  dealer hand has grown by the cards taken off the shoe, and it is bust, or above 17, or
  at exactly 17 where the rule lets the dealer stand: under S17 the dealer stands on
  every 17, and under H17 on no 17 for which \<open>is_soft\<close> holds.
\<close>

theorem play_dealer_hand_stops:
  "(case play_dealer_hand g of
      Inl e \<Rightarrow>
        e = DeckEmpty \<and>
        int (length (deck_cards (deck g))) + hard_total (cards (dealer_hand g)) < 18
    | Inr g' \<Rightarrow>
        rules g' = rules g \<and> player_hands g' = player_hands g \<and>
        (\<exists>cs. cards (dealer_hand g') = cards (dealer_hand g) @ cs \<and>
              deck_cards (deck g) = deck_cards (deck g') @ rev cs) \<and>
        (hand_value (dealer_hand g') > 21 \<or> hand_value (dealer_hand g') > 17 \<or>
         hand_value (dealer_hand g') = 17 \<and>
           \<not> (dealer_hits_soft_17 (rules g) \<and> is_soft (dealer_hand g')))) \<and>
   (hand_value (dealer_hand g) = 17 \<and>
      \<not> (dealer_hits_soft_17 (rules g) \<and> is_soft (dealer_hand g)) \<longrightarrow>
    play_dealer_hand g = Inr g) \<and>
   hard_total (cards h) < hard_total (cards (add_card h c))"
proof -
  have "case play_dealer_hand g of
      Inl e \<Rightarrow>
        e = DeckEmpty \<and>
        int (length (deck_cards (deck g))) + hard_total (cards (dealer_hand g)) < 18
    | Inr g' \<Rightarrow>
        rules g' = rules g \<and> player_hands g' = player_hands g \<and>
        (\<exists>cs. cards (dealer_hand g') = cards (dealer_hand g) @ cs \<and>
              deck_cards (deck g) = deck_cards (deck g') @ rev cs) \<and>
        (hand_value (dealer_hand g') > 21 \<or> hand_value (dealer_hand g') > 17 \<or>
         hand_value (dealer_hand g') = 17 \<and>
           \<not> (dealer_hits_soft_17 (rules g) \<and> is_soft (dealer_hand g')))"
  proof (cases "play_dealer_hand g")
    case (Inl e)
    from play_dealer_hand_Inl [OF this] Inl show ?thesis by simp
  next
    case (Inr g')
    from play_dealer_hand_Inr [OF this] Inr show ?thesis by auto
  qed
  then show ?thesis
    using play_dealer_hand_stand [of g] hard_total_add_card [of h c] by blast
qed

theorem play_dealer_hand_stops_witness:
  "map_sum id (cards \<circ> dealer_hand) (play_dealer_hand example_h17_game) =
     Inr [Card RA HEARTS, Card RA SPADES, Card R5 CLUBS] \<and>
   map_sum id (cards \<circ> dealer_hand) (play_dealer_hand example_split_game) =
     Inr [Card R10 HEARTS, Card R8 SPADES] \<and>
   play_dealer_hand (example_h17_game\<lparr>deck := (deck example_h17_game)\<lparr>deck_cards := []\<rparr>\<rparr>) =
     Inl DeckEmpty \<and>
   hand_value (new_hand\<lparr>cards := [Card RA HEARTS, Card RA SPADES, Card R5 CLUBS]\<rparr>) = 17 \<and>
   hard_total [Card RA HEARTS, Card RA SPADES] = 2 \<and>
   hard_total (cards (add_card (new_hand\<lparr>cards := [Card RA HEARTS, Card RA SPADES]\<rparr>)
     (Card R5 CLUBS))) = 7"
  using play_dealer_hand_stops [of example_h17_game
      "new_hand\<lparr>cards := [Card RA HEARTS, Card RA SPADES]\<rparr>" "Card R5 CLUBS"]
    play_dealer_hand_stops [of example_split_game new_hand "Card R5 CLUBS"]
  by (simp add: example_h17_game_def example_split_game_def play_dealer_hand.simps is_soft_def
      hand_value_def card_value_def adjust_aces.simps deal_card_def add_card_def new_hand_def
      Card_def GameRules_def Let_def)

end
